theory Spec2Isabelle
  imports Main "HOL-Library.Word"
begin

section \<open>The logging facade of package log (log/log.go)\<close>

text \<open>
  The package keeps one process-wide \<open>logr.Logger\<close> behind a \<open>sync.RWMutex\<close> and
  offers package-level functions that delegate to it. The model follows log.go function
  by function. Go's \<open>int\<close> is a 64-bit two's complement integer, io.Writer and Encoder
  values are identified by a tag, and \<open>interface{}\<close> key/value arguments are a small
  sum of the usual dynamic types.
\<close>

subsection \<open>Values\<close>

type_synonym go_int = "64 word"

datatype any = AnyString string | AnyInt go_int | AnyBool bool | AnyNil

text \<open>An io.Writer: \<open>os.Stdout\<close> or some other writer.\<close>

datatype writer = Stdout | Writer nat

text \<open>An Encoder: the package's \<open>JSONEncoder{}\<close> or some other implementation.\<close>

datatype encoder = JSONEncoder | Encoder nat

subsection \<open>Package kverrors\<close>

text \<open>
  Modelled from the spec: package kverrors is not part of log.go. The spec (4.3) gives
  \<open>New(message)\<close>, an error with no fields and no cause, and \<open>Add(err, fields...)\<close>,
  an error that wraps \<open>err\<close> as cause and attaches the fields. Errors are kept as the
  terms that built them; \<open>Foreign_error\<close> is an error of any other package.
\<close>

datatype error =
    kverrors_New string
  | kverrors_Add error "any list"
  | Foreign_error string

subsection \<open>LogSink\<close>

text \<open>
  Modelled from the spec: the struct \<open>LogSink\<close> and its methods live in another file of
  the package. The spec (3, 4.2) gives its state: component name, output destination,
  verbosity threshold, encoder and the list of base fields (insertion order kept,
  duplicates kept).
\<close>

record LogSink =
  ls_name :: string
  ls_output :: writer
  ls_verbosity :: go_int
  ls_encoder :: encoder
  ls_fields :: "any list"

text \<open>
  Modelled from the spec: the constructor \<open>NewLogSink(name, w, v, e, keysAndValues...)\<close>,
  called in log.go with the component name, the output, the verbosity, the encoder and the
  base fields in this order.
\<close>

definition NewLogSink :: "string \<Rightarrow> writer \<Rightarrow> go_int \<Rightarrow> encoder \<Rightarrow> any list \<Rightarrow> LogSink" where
  "NewLogSink component w v e keysAndValues =
     \<lparr>ls_name = component, ls_output = w, ls_verbosity = v, ls_encoder = e,
      ls_fields = keysAndValues\<rparr>"

text \<open>
  Modelled from the spec: \<open>Enabled(level)\<close> returns level \<le> current verbosity threshold
  (4.2); both are Go ints, so the comparison is the signed one.
\<close>

definition Enabled :: "LogSink \<Rightarrow> go_int \<Rightarrow> bool" where
  "Enabled ls lvl = (lvl \<le>s ls_verbosity ls)"

text \<open>
  Modelled from the spec: \<open>SetVerbosity(level)\<close> and \<open>SetOutput(writer)\<close> are the
  in-place mutators of a sink (4.2). The sink a \<open>*LogSink\<close> points to is modelled by its
  value; a mutation through the pointer is the updated value written back.
\<close>

definition SetVerbosity :: "go_int \<Rightarrow> LogSink \<Rightarrow> LogSink" where
  "SetVerbosity v ls = ls\<lparr>ls_verbosity := v\<rparr>"

definition LogSink_SetOutput :: "writer \<Rightarrow> LogSink \<Rightarrow> LogSink" where
  "LogSink_SetOutput w ls = ls\<lparr>ls_output := w\<rparr>"

text \<open>
  Modelled from the spec: \<open>WithName(segment)\<close> returns a new sink with name = current
  name + separator + segment (an empty current name yields just the segment), and
  \<open>WithValues(fields...)\<close> a new sink with base fields = current base fields ++ fields
  (4.2). The spec's example joins "a" and "b" to "a.b".
\<close>

definition LogSink_WithName :: "LogSink \<Rightarrow> string \<Rightarrow> LogSink" where
  "LogSink_WithName ls segment =
     ls\<lparr>ls_name := (if ls_name ls = [] then segment else ls_name ls @ ''.'' @ segment)\<rparr>"

definition LogSink_WithValues :: "LogSink \<Rightarrow> any list \<Rightarrow> LogSink" where
  "LogSink_WithValues ls keysAndValues = ls\<lparr>ls_fields := ls_fields ls @ keysAndValues\<rparr>"

text \<open>
  Modelled from the spec: an \<open>Option\<close> applies a transformation to the sink before use
  (6, functional options); \<open>opt(ls)\<close> mutates the sink it is given. An option is a
  function value that is not \<open>nil\<close> and that returns.
\<close>

type_synonym Option = "LogSink \<Rightarrow> LogSink"

subsection \<open>Package logr\<close>

text \<open>
  The interface \<open>logr.LogSink\<close>: a value of it is either a \<open>*LogSink\<close> of this package
  or a sink of some other dynamic type. A foreign sink is opaque; a sink derived from it is
  kept as the derivation that made it.
\<close>

datatype foreign_sink =
    Foreign nat
  | Foreign_WithValues foreign_sink "any list"
  | Foreign_WithName foreign_sink string

datatype logr_LogSink = PLogSink LogSink | Other foreign_sink

text \<open>
  Package logr is an external module (github.com/go-logr/logr), used by log.go through
  \<open>logr.New\<close>, \<open>GetSink\<close>, \<open>V\<close>, \<open>Info\<close>, \<open>Error\<close>, \<open>WithValues\<close> and
  \<open>WithName\<close>. \<open>logr.Logger\<close> is a struct holding the sink and the logger's
  verbosity level; \<open>logr.New\<close> wraps a sink at level 0, \<open>GetSink\<close> returns the sink,
  \<open>V\<close> adds a level (V-levels are additive, as the comment at log.go line 78 says;
  negative ones are treated as 0), and \<open>WithValues\<close>/\<open>WithName\<close> replace the sink
  by the one its own method of that name returns.
\<close>

record logr_Logger =
  sink :: logr_LogSink
  level :: go_int

definition logr_New :: "logr_LogSink \<Rightarrow> logr_Logger" where
  "logr_New s = \<lparr>sink = s, level = 0\<rparr>"

definition GetSink :: "logr_Logger \<Rightarrow> logr_LogSink" where
  "GetSink l = sink l"

definition Logger_V :: "logr_Logger \<Rightarrow> go_int \<Rightarrow> logr_Logger" where
  "Logger_V l lvl = l\<lparr>level := level l + (if lvl <s 0 then 0 else lvl)\<rparr>"

fun sink_WithValues :: "logr_LogSink \<Rightarrow> any list \<Rightarrow> logr_LogSink" where
  "sink_WithValues (PLogSink ls) kvs = PLogSink (LogSink_WithValues ls kvs)"
| "sink_WithValues (Other f) kvs = Other (Foreign_WithValues f kvs)"

fun sink_WithName :: "logr_LogSink \<Rightarrow> string \<Rightarrow> logr_LogSink" where
  "sink_WithName (PLogSink ls) n = PLogSink (LogSink_WithName ls n)"
| "sink_WithName (Other f) n = Other (Foreign_WithName f n)"

definition Logger_WithValues :: "logr_Logger \<Rightarrow> any list \<Rightarrow> logr_Logger" where
  "Logger_WithValues l kvs = l\<lparr>sink := sink_WithValues (sink l) kvs\<rparr>"

definition Logger_WithName :: "logr_Logger \<Rightarrow> string \<Rightarrow> logr_Logger" where
  "Logger_WithName l n = l\<lparr>sink := sink_WithName (sink l) n\<rparr>"

text \<open>
  What \<open>Logger.Info\<close> and \<open>Logger.Error\<close> do with a record happens outside log.go.
  The model keeps the calls themselves: receiver and arguments, in the order made.
\<close>

datatype call =
    Info_call logr_Logger string "any list"
  | Error_call logr_Logger "error option" string "any list"

definition Logger_Info :: "logr_Logger \<Rightarrow> string \<Rightarrow> any list \<Rightarrow> call list \<Rightarrow> call list" where
  "Logger_Info l msg kvs cs = cs @ [Info_call l msg kvs]"

definition Logger_Error ::
  "logr_Logger \<Rightarrow> error option \<Rightarrow> string \<Rightarrow> any list \<Rightarrow> call list \<Rightarrow> call list" where
  "Logger_Error l err msg kvs cs = cs @ [Error_call l err msg kvs]"

subsection \<open>sync.RWMutex\<close>

text \<open>
  The lock is held by one writer or by any number of readers. \<open>Lock\<close> and \<open>RLock\<close>
  return \<open>None\<close> where the Go call would have to wait; \<open>Unlock\<close> and \<open>RUnlock\<close>
  return \<open>None\<close> where Go stops the program (unlock of an unlocked mutex).
\<close>

record RWMutex =
  writer :: bool
  readers :: nat

definition Lock :: "RWMutex \<Rightarrow> RWMutex option" where
  "Lock m = (if writer m \<or> 0 < readers m then None else Some (m\<lparr>writer := True\<rparr>))"

definition Unlock :: "RWMutex \<Rightarrow> RWMutex option" where
  "Unlock m = (if writer m then Some (m\<lparr>writer := False\<rparr>) else None)"

definition RLock :: "RWMutex \<Rightarrow> RWMutex option" where
  "RLock m = (if writer m then None else Some (m\<lparr>readers := Suc (readers m)\<rparr>))"

definition RUnlock :: "RWMutex \<Rightarrow> RWMutex option" where
  "RUnlock m = (if 0 < readers m then Some (m\<lparr>readers := readers m - 1\<rparr>) else None)"

subsection \<open>Package state\<close>

text \<open>
  The package-level variables of log.go (lines 17-23), and the calls made on loggers so
  far.
\<close>

record pkg =
  defaultOutput :: writer
  defautLogLevel :: go_int
  mtx :: RWMutex
  logger :: logr_Logger
  calls :: "call list"

text \<open>The variables as their initialisers leave them.\<close>

definition init_pkg :: pkg where
  "init_pkg =
     \<lparr>defaultOutput = Stdout,
      defautLogLevel = 0,
      mtx = \<lparr>writer = False, readers = 0\<rparr>,
      logger = logr_New (PLogSink (NewLogSink [] Stdout 0 JSONEncoder [])),
      calls = []\<rparr>"

text \<open>
  \<open>ErrUnknownLoggerType = kverrors.New("unknown error type")\<close> (log.go line 15).
\<close>

definition ErrUnknownLoggerType :: error where
  "ErrUnknownLoggerType = kverrors_New ''unknown error type''"

text \<open>
  \<open>mtx.Lock(); defer mtx.Unlock(); body\<close> and \<open>mtx.RLock(); defer mtx.RUnlock(); body\<close>.
  The body runs in the state that holds the lock. The result is \<open>None\<close> when the call
  does not return from this state.
\<close>

definition with_Lock :: "(pkg \<Rightarrow> 'a \<times> pkg) \<Rightarrow> pkg \<Rightarrow> ('a \<times> pkg) option" where
  "with_Lock body s =
     (case Lock (mtx s) of
        None \<Rightarrow> None
      | Some m \<Rightarrow>
          (case body (s\<lparr>mtx := m\<rparr>) of
             (r, s') \<Rightarrow>
               (case Unlock (mtx s') of
                  None \<Rightarrow> None
                | Some m' \<Rightarrow> Some (r, s'\<lparr>mtx := m'\<rparr>))))"

definition with_RLock :: "(pkg \<Rightarrow> 'a \<times> pkg) \<Rightarrow> pkg \<Rightarrow> ('a \<times> pkg) option" where
  "with_RLock body s =
     (case RLock (mtx s) of
        None \<Rightarrow> None
      | Some m \<Rightarrow>
          (case body (s\<lparr>mtx := m\<rparr>) of
             (r, s') \<Rightarrow>
               (case RUnlock (mtx s') of
                  None \<Rightarrow> None
                | Some m' \<Rightarrow> Some (r, s'\<lparr>mtx := m'\<rparr>))))"

subsection \<open>The functions of log.go\<close>

text \<open>\<open>useLogger\<close> (line 74): \<open>logger = l\<close>, without the lock.\<close>

definition useLogger :: "logr_Logger \<Rightarrow> pkg \<Rightarrow> pkg" where
  "useLogger l s = s\<lparr>logger := l\<rparr>"

text \<open>The loop \<open>for _, opt := range opts { opt(ls) }\<close> (lines 46-48).\<close>

fun range_opts :: "Option list \<Rightarrow> LogSink \<Rightarrow> LogSink" where
  "range_opts [] ls = ls"
| "range_opts (opt # opts) ls = range_opts opts (opt ls)"

text \<open>\<open>InitWithOptions\<close> (line 40).\<close>

definition InitWithOptions :: "string \<Rightarrow> Option list \<Rightarrow> any list \<Rightarrow> pkg \<Rightarrow> (unit \<times> pkg) option" where
  "InitWithOptions component opts keyValuePairs =
     with_Lock (\<lambda>s.
       let ls = NewLogSink component (defaultOutput s) 0 JSONEncoder keyValuePairs;
           ls = range_opts opts ls;
           ll = logr_New (PLogSink ls)
       in ((), useLogger ll s))"

text \<open>\<open>Init\<close> (line 30) passes \<open>nil\<close> for the options.\<close>

definition Init :: "string \<Rightarrow> any list \<Rightarrow> pkg \<Rightarrow> (unit \<times> pkg) option" where
  "Init component keyValuePairs = InitWithOptions component [] keyValuePairs"

text \<open>\<open>MustInit\<close> (line 35) and \<open>MustInitWithOptions\<close> (line 56).\<close>

definition MustInit :: "string \<Rightarrow> any list \<Rightarrow> pkg \<Rightarrow> (unit \<times> pkg) option" where
  "MustInit component keyValuePairs = Init component keyValuePairs"

definition MustInitWithOptions ::
  "string \<Rightarrow> Option list \<Rightarrow> any list \<Rightarrow> pkg \<Rightarrow> (unit \<times> pkg) option" where
  "MustInitWithOptions component opts keyValuePairs =
     InitWithOptions component opts keyValuePairs"

text \<open>\<open>GetLogger\<close> (line 61) reads the variable and takes no lock.\<close>

definition GetLogger :: "pkg \<Rightarrow> logr_Logger \<times> pkg" where
  "GetLogger s = (logger s, s)"

text \<open>\<open>UseLogger\<close> (line 66).\<close>

definition UseLogger :: "logr_Logger \<Rightarrow> pkg \<Rightarrow> (unit \<times> pkg) option" where
  "UseLogger l = with_Lock (\<lambda>s. ((), useLogger l s))"

text \<open>\<open>V\<close> (line 82).\<close>

definition V :: "go_int \<Rightarrow> pkg \<Rightarrow> (logr_Logger \<times> pkg) option" where
  "V lvl = with_RLock (\<lambda>s. (Logger_V (logger s) lvl, s))"

text \<open>\<open>Info\<close> (line 94) and \<open>Error\<close> (line 108).\<close>

definition Info :: "string \<Rightarrow> any list \<Rightarrow> pkg \<Rightarrow> (unit \<times> pkg) option" where
  "Info msg keysAndValues =
     with_RLock (\<lambda>s. ((), s\<lparr>calls := Logger_Info (logger s) msg keysAndValues (calls s)\<rparr>))"

definition Error :: "error option \<Rightarrow> string \<Rightarrow> any list \<Rightarrow> pkg \<Rightarrow> (unit \<times> pkg) option" where
  "Error err msg keysAndValues =
     with_RLock (\<lambda>s.
       ((), s\<lparr>calls := Logger_Error (logger s) err msg keysAndValues (calls s)\<rparr>))"

text \<open>\<open>WithValues\<close> (line 116) and \<open>WithName\<close> (line 127).\<close>

definition WithValues :: "any list \<Rightarrow> pkg \<Rightarrow> (logr_Logger \<times> pkg) option" where
  "WithValues keysAndValues = with_RLock (\<lambda>s. (Logger_WithValues (logger s) keysAndValues, s))"

definition WithName :: "string \<Rightarrow> pkg \<Rightarrow> (logr_Logger \<times> pkg) option" where
  "WithName n = with_RLock (\<lambda>s. (Logger_WithName (logger s) n, s))"

text \<open>
  The error both setters return in the \<open>default\<close> branch. \<open>fmt.Sprintf("%T", logger)\<close>
  prints the type of the variable \<open>logger\<close>, a \<open>logr.Logger\<close>, and
  \<open>fmt.Sprintf("%T", &LogSink{})\<close> prints \<open>*log.LogSink\<close>.
\<close>

definition unknown_logger_type :: error where
  "unknown_logger_type =
     kverrors_Add ErrUnknownLoggerType
       [AnyString ''logger_type'', AnyString ''logr.Logger'',
        AnyString ''expected_type'', AnyString ''*log.LogSink'']"

text \<open>
  \<open>SetLogLevel\<close> (line 134) takes the write lock. In the \<open>*LogSink\<close> case the sink the
  logger points to is mutated; the logger variable itself is not assigned.
\<close>

definition SetLogLevel :: "go_int \<Rightarrow> pkg \<Rightarrow> (error option \<times> pkg) option" where
  "SetLogLevel v =
     with_Lock (\<lambda>s.
       case GetSink (logger s) of
         PLogSink ls \<Rightarrow> (None, s\<lparr>logger := (logger s)\<lparr>sink := PLogSink (SetVerbosity v ls)\<rparr>\<rparr>)
       | Other f \<Rightarrow> (Some unknown_logger_type, s))"

text \<open>\<open>SetOutput\<close> (line 151) takes \<open>mtx.RLock()\<close> and releases with \<open>mtx.RUnlock()\<close>.\<close>

definition SetOutput :: "writer \<Rightarrow> pkg \<Rightarrow> (error option \<times> pkg) option" where
  "SetOutput w =
     with_RLock (\<lambda>s.
       case GetSink (logger s) of
         PLogSink ls \<Rightarrow>
           (None, s\<lparr>logger := (logger s)\<lparr>sink := PLogSink (LogSink_SetOutput w ls)\<rparr>\<rparr>)
       | Other f \<Rightarrow> (Some unknown_logger_type, s))"

subsection \<open>Sequences of calls\<close>




subsection \<open>Options that panic\<close>

text \<open>
  A value of type \<open>Option\<close> is a Go function value: it can be \<open>nil\<close>, and a function
  can panic instead of returning. What the call \<open>opt(ls)\<close> at line 47 does is then
  either the mutated sink or a panic (\<open>None\<close>); calling \<open>nil\<close> panics on every sink.
  \<open>returning\<close> is an option in the sense above, which returns on every sink.
\<close>

type_synonym Option_value = "LogSink \<Rightarrow> LogSink option"

definition nil_Option :: Option_value where
  "nil_Option = (\<lambda>ls. None)"

definition returning :: "Option \<Rightarrow> Option_value" where
  "returning opt = (\<lambda>ls. Some (opt ls))"

text \<open>
  How a call ends: it waits for the mutex, the runtime stops the program (unlock of an
  unlocked mutex), it panics, or it returns. A panic carries the package state it leaves
  behind.
\<close>

datatype 'a outcome = Waits | Fatal | Panics pkg | Returns 'a

text \<open>
  The loop of lines 46-48 over such values: the first option that panics ends it.
\<close>

fun range_opts_outcome :: "Option_value list \<Rightarrow> LogSink \<Rightarrow> LogSink option" where
  "range_opts_outcome [] ls = Some ls"
| "range_opts_outcome (opt # opts) ls =
     (case opt ls of None \<Rightarrow> None | Some ls' \<Rightarrow> range_opts_outcome opts ls')"

text \<open>
  \<open>mtx.Lock(); defer mtx.Unlock(); body\<close> for a body that may panic: the deferred
  \<open>Unlock\<close> runs when the body returns and also when it panics.
\<close>

definition with_Lock_outcome ::
  "(pkg \<Rightarrow> 'a option \<times> pkg) \<Rightarrow> pkg \<Rightarrow> ('a \<times> pkg) outcome" where
  "with_Lock_outcome body s =
     (case Lock (mtx s) of
        None \<Rightarrow> Waits
      | Some m \<Rightarrow>
          (case body (s\<lparr>mtx := m\<rparr>) of
             (r, s') \<Rightarrow>
               (case Unlock (mtx s') of
                  None \<Rightarrow> Fatal
                | Some m' \<Rightarrow>
                    (case r of
                       None \<Rightarrow> Panics (s'\<lparr>mtx := m'\<rparr>)
                     | Some x \<Rightarrow> Returns (x, s'\<lparr>mtx := m'\<rparr>)))))"

text \<open>
  \<open>InitWithOptions\<close> (line 40) with such options: a panic in the loop leaves the
  function before \<open>useLogger\<close> is reached. \<open>Init\<close>, \<open>MustInit\<close> and
  \<open>MustInitWithOptions\<close> call it as before.
\<close>

definition InitWithOptions_outcome ::
  "string \<Rightarrow> Option_value list \<Rightarrow> any list \<Rightarrow> pkg \<Rightarrow> (unit \<times> pkg) outcome" where
  "InitWithOptions_outcome component opts keyValuePairs =
     with_Lock_outcome (\<lambda>s.
       let ls = NewLogSink component (defaultOutput s) 0 JSONEncoder keyValuePairs
       in case range_opts_outcome opts ls of
            None \<Rightarrow> (None, s)
          | Some ls' \<Rightarrow> (Some (), useLogger (logr_New (PLogSink ls')) s))"

definition Init_outcome :: "string \<Rightarrow> any list \<Rightarrow> pkg \<Rightarrow> (unit \<times> pkg) outcome" where
  "Init_outcome component keyValuePairs = InitWithOptions_outcome component [] keyValuePairs"

definition MustInit_outcome :: "string \<Rightarrow> any list \<Rightarrow> pkg \<Rightarrow> (unit \<times> pkg) outcome" where
  "MustInit_outcome component keyValuePairs = Init_outcome component keyValuePairs"

definition MustInitWithOptions_outcome ::
  "string \<Rightarrow> Option_value list \<Rightarrow> any list \<Rightarrow> pkg \<Rightarrow> (unit \<times> pkg) outcome" where
  "MustInitWithOptions_outcome component opts keyValuePairs =
     InitWithOptions_outcome component opts keyValuePairs"

text \<open>The outcome of a call that cannot panic.\<close>

definition outcome_of :: "'a option \<Rightarrow> 'a outcome" where
  "outcome_of r = (case r of None \<Rightarrow> Waits | Some x \<Rightarrow> Returns x)"

section \<open>Properties\<close>

subsection \<open>The lock\<close>

lemma Lock_Unlock:
  "\<not> writer m \<Longrightarrow> readers m = 0 \<Longrightarrow>
   Lock m = Some (m\<lparr>writer := True\<rparr>) \<and> Unlock (m\<lparr>writer := True\<rparr>) = Some m"
  by (cases m) (simp add: Lock_def Unlock_def)

lemma RLock_RUnlock:
  "\<not> writer m \<Longrightarrow>
   RLock m = Some (m\<lparr>readers := Suc (readers m)\<rparr>) \<and>
   RUnlock (m\<lparr>readers := Suc (readers m)\<rparr>) = Some m"
  by (cases m) (simp add: RLock_def RUnlock_def)

text \<open>
  A body that leaves the mutex alone returns under either lock, and the lock is back in
  the state it had before the call.
\<close>

lemma with_Lock_returns:
  assumes "\<not> writer (mtx s)" and "readers (mtx s) = 0"
    and "\<And>m. body (s\<lparr>mtx := m\<rparr>) = (r, t\<lparr>mtx := m\<rparr>)"
  shows "with_Lock body s = Some (r, t\<lparr>mtx := mtx s\<rparr>)"
  using Lock_Unlock [OF assms(1,2)] by (simp add: with_Lock_def assms(3))

lemma with_RLock_returns:
  assumes "\<not> writer (mtx s)"
    and "\<And>m. body (s\<lparr>mtx := m\<rparr>) = (r, t\<lparr>mtx := m\<rparr>)"
  shows "with_RLock body s = Some (r, t\<lparr>mtx := mtx s\<rparr>)"
  using RLock_RUnlock [OF assms(1)] by (simp add: with_RLock_def assms(2))

lemma with_Lock_waits: "writer (mtx s) \<or> 0 < readers (mtx s) \<Longrightarrow> with_Lock body s = None"
  by (auto simp add: with_Lock_def Lock_def)

lemma with_RLock_waits: "writer (mtx s) \<Longrightarrow> with_RLock body s = None"
  by (simp add: with_RLock_def RLock_def)

subsection \<open>What each function returns\<close>


lemma range_opts_append: "range_opts (opts @ [opt]) ls = opt (range_opts opts ls)"
  by (induction opts arbitrary: ls) simp_all

lemma InitWithOptions_returns:
  assumes "\<not> writer (mtx s)" and "readers (mtx s) = 0"
  shows "InitWithOptions c opts kvs s =
    Some ((), s\<lparr>logger :=
      logr_New (PLogSink (range_opts opts (NewLogSink c (defaultOutput s) 0 JSONEncoder kvs)))\<rparr>)"
proof -
  let ?t = "s\<lparr>logger :=
      logr_New (PLogSink (range_opts opts (NewLogSink c (defaultOutput s) 0 JSONEncoder kvs)))\<rparr>"
  have "InitWithOptions c opts kvs s = Some ((), ?t\<lparr>mtx := mtx s\<rparr>)"
    unfolding InitWithOptions_def
    by (rule with_Lock_returns) (simp_all add: assms useLogger_def)
  then show ?thesis by simp
qed

lemma UseLogger_returns:
  assumes "\<not> writer (mtx s)" and "readers (mtx s) = 0"
  shows "UseLogger l s = Some ((), s\<lparr>logger := l\<rparr>)"
proof -
  have "UseLogger l s = Some ((), s\<lparr>logger := l, mtx := mtx s\<rparr>)"
    unfolding UseLogger_def
    by (rule with_Lock_returns) (simp_all add: assms useLogger_def)
  then show ?thesis by simp
qed

lemma V_returns: "\<not> writer (mtx s) \<Longrightarrow> V lvl s = Some (Logger_V (logger s) lvl, s)"
proof -
  assume free: "\<not> writer (mtx s)"
  have "V lvl s = Some (Logger_V (logger s) lvl, s\<lparr>mtx := mtx s\<rparr>)"
    unfolding V_def by (rule with_RLock_returns) (simp_all add: free)
  then show ?thesis by simp
qed

lemma Info_returns:
  "\<not> writer (mtx s) \<Longrightarrow>
   Info msg kvs s = Some ((), s\<lparr>calls := calls s @ [Info_call (logger s) msg kvs]\<rparr>)"
proof -
  assume free: "\<not> writer (mtx s)"
  have "Info msg kvs s =
    Some ((), s\<lparr>calls := calls s @ [Info_call (logger s) msg kvs], mtx := mtx s\<rparr>)"
    unfolding Info_def by (rule with_RLock_returns) (simp_all add: free Logger_Info_def)
  then show ?thesis by simp
qed

lemma Error_returns:
  "\<not> writer (mtx s) \<Longrightarrow>
   Error err msg kvs s = Some ((), s\<lparr>calls := calls s @ [Error_call (logger s) err msg kvs]\<rparr>)"
proof -
  assume free: "\<not> writer (mtx s)"
  have "Error err msg kvs s =
    Some ((), s\<lparr>calls := calls s @ [Error_call (logger s) err msg kvs], mtx := mtx s\<rparr>)"
    unfolding Error_def by (rule with_RLock_returns) (simp_all add: free Logger_Error_def)
  then show ?thesis by simp
qed

lemma WithValues_returns:
  "\<not> writer (mtx s) \<Longrightarrow> WithValues kvs s = Some (Logger_WithValues (logger s) kvs, s)"
proof -
  assume free: "\<not> writer (mtx s)"
  have "WithValues kvs s = Some (Logger_WithValues (logger s) kvs, s\<lparr>mtx := mtx s\<rparr>)"
    unfolding WithValues_def by (rule with_RLock_returns) (simp_all add: free)
  then show ?thesis by simp
qed

lemma WithName_returns:
  "\<not> writer (mtx s) \<Longrightarrow> WithName n s = Some (Logger_WithName (logger s) n, s)"
proof -
  assume free: "\<not> writer (mtx s)"
  have "WithName n s = Some (Logger_WithName (logger s) n, s\<lparr>mtx := mtx s\<rparr>)"
    unfolding WithName_def by (rule with_RLock_returns) (simp_all add: free)
  then show ?thesis by simp
qed

lemma SetLogLevel_LogSink:
  assumes "\<not> writer (mtx s)" and "readers (mtx s) = 0"
    and "GetSink (logger s) = PLogSink ls"
  shows "SetLogLevel v s =
    Some (None, s\<lparr>logger := (logger s)\<lparr>sink := PLogSink (ls\<lparr>ls_verbosity := v\<rparr>)\<rparr>\<rparr>)"
proof -
  let ?t = "s\<lparr>logger := (logger s)\<lparr>sink := PLogSink (ls\<lparr>ls_verbosity := v\<rparr>)\<rparr>\<rparr>"
  have "SetLogLevel v s = Some (None, ?t\<lparr>mtx := mtx s\<rparr>)"
    unfolding SetLogLevel_def
    by (rule with_Lock_returns) (simp_all add: assms SetVerbosity_def)
  then show ?thesis by simp
qed

lemma SetLogLevel_Other:
  assumes "\<not> writer (mtx s)" and "readers (mtx s) = 0"
    and "GetSink (logger s) = Other f"
  shows "SetLogLevel v s = Some (Some unknown_logger_type, s)"
proof -
  have "SetLogLevel v s = Some (Some unknown_logger_type, s\<lparr>mtx := mtx s\<rparr>)"
    unfolding SetLogLevel_def
    by (rule with_Lock_returns) (simp_all add: assms)
  then show ?thesis by simp
qed

lemma SetOutput_LogSink:
  assumes "\<not> writer (mtx s)" and "GetSink (logger s) = PLogSink ls"
  shows "SetOutput w s =
    Some (None, s\<lparr>logger := (logger s)\<lparr>sink := PLogSink (ls\<lparr>ls_output := w\<rparr>)\<rparr>\<rparr>)"
proof -
  let ?t = "s\<lparr>logger := (logger s)\<lparr>sink := PLogSink (ls\<lparr>ls_output := w\<rparr>)\<rparr>\<rparr>"
  have "SetOutput w s = Some (None, ?t\<lparr>mtx := mtx s\<rparr>)"
    unfolding SetOutput_def
    by (rule with_RLock_returns) (simp_all add: assms LogSink_SetOutput_def)
  then show ?thesis by simp
qed

lemma SetOutput_Other:
  assumes "\<not> writer (mtx s)" and "GetSink (logger s) = Other f"
  shows "SetOutput w s = Some (Some unknown_logger_type, s)"
proof -
  have "SetOutput w s = Some (Some unknown_logger_type, s\<lparr>mtx := mtx s\<rparr>)"
    unfolding SetOutput_def
    by (rule with_RLock_returns) (simp_all add: assms)
  then show ?thesis by simp
qed

text \<open>The functions that take the write lock wait while anyone holds the mutex.\<close>

lemma writers_wait:
  assumes "writer (mtx s) \<or> 0 < readers (mtx s)"
  shows "InitWithOptions c opts kvs s = None" and "UseLogger l s = None"
    and "SetLogLevel v s = None"
  using assms by (simp_all add: InitWithOptions_def UseLogger_def SetLogLevel_def with_Lock_waits)

subsection \<open>The claims\<close>

text \<open>
  C1. For every verbosity \<open>v\<close> and writer \<open>w\<close>, called with the mutex free:
  \<open>SetLogLevel(v)\<close> and \<open>SetOutput(w)\<close> return an error exactly when the sink of the
  installed logger is not a \<open>*LogSink\<close>. The error is then \<open>ErrUnknownLoggerType\<close> with
  the pairs \<open>logger_type\<close> and \<open>expected_type\<close> added, and the package state (the logger
  variable and its sink with it) is the one before the call. When the sink is a
  \<open>*LogSink\<close>, the verbosity, respectively the output, of that sink is set and \<open>nil\<close> is
  returned.
\<close>

theorem setters_fail_iff_sink_not_LogSink:
  assumes "\<not> writer (mtx s)" and "readers (mtx s) = 0"
  shows "(case GetSink (logger s) of
            PLogSink ls \<Rightarrow>
              SetLogLevel v s =
                Some (None, s\<lparr>logger := (logger s)\<lparr>sink := PLogSink (ls\<lparr>ls_verbosity := v\<rparr>)\<rparr>\<rparr>) \<and>
              SetOutput w s =
                Some (None, s\<lparr>logger := (logger s)\<lparr>sink := PLogSink (ls\<lparr>ls_output := w\<rparr>)\<rparr>\<rparr>)
          | Other f \<Rightarrow>
              SetLogLevel v s =
                Some (Some (kverrors_Add ErrUnknownLoggerType
                   [AnyString ''logger_type'', AnyString ''logr.Logger'',
                    AnyString ''expected_type'', AnyString ''*log.LogSink'']), s) \<and>
              SetOutput w s =
                Some (Some (kverrors_Add ErrUnknownLoggerType
                   [AnyString ''logger_type'', AnyString ''logr.Logger'',
                    AnyString ''expected_type'', AnyString ''*log.LogSink'']), s)) \<and>
         (\<exists>e t. SetLogLevel v s = Some (Some e, t)) = (\<forall>ls. GetSink (logger s) \<noteq> PLogSink ls) \<and>
         (\<exists>e t. SetOutput w s = Some (Some e, t)) = (\<forall>ls. GetSink (logger s) \<noteq> PLogSink ls)"
proof (cases "GetSink (logger s)")
  case (PLogSink ls)
  have "SetLogLevel v s =
      Some (None, s\<lparr>logger := (logger s)\<lparr>sink := PLogSink (ls\<lparr>ls_verbosity := v\<rparr>)\<rparr>\<rparr>)"
    using assms PLogSink by (rule SetLogLevel_LogSink)
  moreover have "SetOutput w s =
      Some (None, s\<lparr>logger := (logger s)\<lparr>sink := PLogSink (ls\<lparr>ls_output := w\<rparr>)\<rparr>\<rparr>)"
    using assms(1) PLogSink by (rule SetOutput_LogSink)
  ultimately show ?thesis using PLogSink by simp
next
  case (Other f)
  have "SetLogLevel v s = Some (Some unknown_logger_type, s)"
    using assms Other by (rule SetLogLevel_Other)
  moreover have "SetOutput w s = Some (Some unknown_logger_type, s)"
    using assms(1) Other by (rule SetOutput_Other)
  ultimately show ?thesis using Other by (simp add: unknown_logger_type_def)
qed

theorem setters_fail_iff_sink_not_LogSink_witness:
  "\<not> writer (mtx init_pkg) \<and> readers (mtx init_pkg) = 0 \<and>
   SetLogLevel 2 init_pkg =
     Some (None, init_pkg\<lparr>logger :=
       logr_New (PLogSink (NewLogSink [] Stdout 2 JSONEncoder []))\<rparr>) \<and>
   SetOutput (Writer 1) init_pkg =
     Some (None, init_pkg\<lparr>logger :=
       logr_New (PLogSink (NewLogSink [] (Writer 1) 0 JSONEncoder []))\<rparr>) \<and>
   SetLogLevel 2 (init_pkg\<lparr>logger := logr_New (Other (Foreign 0))\<rparr>) =
     Some (Some (kverrors_Add (kverrors_New ''unknown error type'')
        [AnyString ''logger_type'', AnyString ''logr.Logger'',
         AnyString ''expected_type'', AnyString ''*log.LogSink'']),
       init_pkg\<lparr>logger := logr_New (Other (Foreign 0))\<rparr>) \<and>
   SetOutput (Writer 1) (init_pkg\<lparr>logger := logr_New (Other (Foreign 0))\<rparr>) =
     Some (Some (kverrors_Add (kverrors_New ''unknown error type'')
        [AnyString ''logger_type'', AnyString ''logr.Logger'',
         AnyString ''expected_type'', AnyString ''*log.LogSink'']),
       init_pkg\<lparr>logger := logr_New (Other (Foreign 0))\<rparr>)"
proof -
  have a: "\<not> writer (mtx init_pkg)" and b: "readers (mtx init_pkg) = 0"
    by (simp_all add: init_pkg_def)
  have a': "\<not> writer (mtx (init_pkg\<lparr>logger := logr_New (Other (Foreign 0))\<rparr>))"
    and b': "readers (mtx (init_pkg\<lparr>logger := logr_New (Other (Foreign 0))\<rparr>)) = 0"
    by (simp_all add: init_pkg_def)
  show ?thesis
    using a b setters_fail_iff_sink_not_LogSink [OF a b, of 2 "Writer 1"]
      setters_fail_iff_sink_not_LogSink [OF a' b', of 2 "Writer 1"]
    by (simp add: init_pkg_def logr_New_def GetSink_def NewLogSink_def
        ErrUnknownLoggerType_def)
qed

text \<open>
  C2. \<open>InitWithOptions\<close>, \<open>UseLogger\<close> and \<open>SetLogLevel\<close> take \<open>mtx.Lock()\<close>, but
  \<open>SetOutput\<close> takes \<open>mtx.RLock()\<close>. With one reader inside its critical section
  (one goroutine holds the read lock, as a call of \<open>Info\<close> does), \<open>SetOutput\<close> does
  not wait: it returns \<open>nil\<close> and has replaced the output of the installed sink, while
  \<open>SetLogLevel\<close> called in the same state waits.
\<close>

theorem SetOutput_runs_beside_a_reader:
  "SetOutput (Writer 1) (init_pkg\<lparr>mtx := \<lparr>writer = False, readers = 1\<rparr>\<rparr>) =
     Some (None,
       init_pkg\<lparr>mtx := \<lparr>writer = False, readers = 1\<rparr>,
                logger := logr_New (PLogSink (NewLogSink [] (Writer 1) 0 JSONEncoder []))\<rparr>) \<and>
   SetLogLevel 1 (init_pkg\<lparr>mtx := \<lparr>writer = False, readers = 1\<rparr>\<rparr>) = None"
proof -
  let ?s = "init_pkg\<lparr>mtx := \<lparr>writer = False, readers = 1\<rparr>\<rparr>"
  have free: "\<not> writer (mtx ?s)" by simp
  have snk: "GetSink (logger ?s) = PLogSink (NewLogSink [] Stdout 0 JSONEncoder [])"
    by (simp add: init_pkg_def GetSink_def logr_New_def)
  have held: "writer (mtx ?s) \<or> 0 < readers (mtx ?s)" by simp
  have "SetLogLevel 1 ?s = None"
    using held by (rule writers_wait(3))
  then show ?thesis
    using SetOutput_LogSink [OF free snk, of "Writer 1"]
    by (simp add: init_pkg_def logr_New_def NewLogSink_def)
qed

text \<open>
  C3. Before any call, the logger variable holds a logger over a \<open>LogSink\<close> with empty
  component name, output \<open>os.Stdout\<close>, verbosity 0, the JSON encoder and no base fields,
  and every package-level function returns when called on this state; the two setters
  return \<open>nil\<close>.
\<close>

theorem default_logger_installed:
  "GetSink (logger init_pkg) =
     PLogSink \<lparr>ls_name = [], ls_output = Stdout, ls_verbosity = 0, ls_encoder = JSONEncoder,
               ls_fields = []\<rparr> \<and>
   fst (GetLogger init_pkg) = logger init_pkg \<and>
   Info msg kvs init_pkg \<noteq> None \<and>
   Error err msg kvs init_pkg \<noteq> None \<and>
   V lvl init_pkg = Some (Logger_V (logger init_pkg) lvl, init_pkg) \<and>
   WithValues kvs init_pkg = Some (Logger_WithValues (logger init_pkg) kvs, init_pkg) \<and>
   WithName n init_pkg = Some (Logger_WithName (logger init_pkg) n, init_pkg) \<and>
   (\<exists>t. SetLogLevel v init_pkg = Some (None, t)) \<and>
   (\<exists>t. SetOutput w init_pkg = Some (None, t))"
proof -
  have a: "\<not> writer (mtx init_pkg)" and b: "readers (mtx init_pkg) = 0"
    by (simp_all add: init_pkg_def)
  have snk: "GetSink (logger init_pkg) =
     PLogSink \<lparr>ls_name = [], ls_output = Stdout, ls_verbosity = 0, ls_encoder = JSONEncoder,
               ls_fields = []\<rparr>"
    by (simp add: init_pkg_def GetSink_def logr_New_def NewLogSink_def)
  show ?thesis
    using snk Info_returns [OF a, of msg kvs] Error_returns [OF a, of err msg kvs]
      V_returns [OF a, of lvl] WithValues_returns [OF a, of kvs] WithName_returns [OF a, of n]
      SetLogLevel_LogSink [OF a b snk, of v] SetOutput_LogSink [OF a snk, of w]
    by (simp add: GetLogger_def)
qed



text \<open>
  C5. Called while no writer holds the mutex, \<open>Info(msg, kvs...)\<close> and
  \<open>Error(err, msg, kvs...)\<close> make exactly one call, \<open>Info\<close> respectively \<open>Error\<close> of
  the installed logger with the same arguments, and \<open>WithValues(kvs...)\<close> and
  \<open>WithName(name)\<close> return what the method of that name of the installed logger
  returns. None of them changes the logger variable; the last two change nothing at all.
\<close>

theorem readers_delegate_to_logger:
  assumes "\<not> writer (mtx s)"
  shows "Info msg kvs s = Some ((), s\<lparr>calls := calls s @ [Info_call (logger s) msg kvs]\<rparr>) \<and>
         Error err msg kvs s =
           Some ((), s\<lparr>calls := calls s @ [Error_call (logger s) err msg kvs]\<rparr>) \<and>
         WithValues kvs s = Some (Logger_WithValues (logger s) kvs, s) \<and>
         WithName n s = Some (Logger_WithName (logger s) n, s)"
  using Info_returns [OF assms] Error_returns [OF assms] WithValues_returns [OF assms]
    WithName_returns [OF assms]
  by simp

theorem readers_delegate_to_logger_witness:
  "\<not> writer (mtx init_pkg) \<and>
   Info ''started'' [AnyString ''port'', AnyInt 80] init_pkg =
     Some ((), init_pkg\<lparr>calls :=
       [Info_call (logger init_pkg) ''started'' [AnyString ''port'', AnyInt 80]]\<rparr>) \<and>
   Error (Some (Foreign_error ''EOF'')) ''started'' [AnyString ''port'', AnyInt 80] init_pkg =
     Some ((), init_pkg\<lparr>calls :=
       [Error_call (logger init_pkg) (Some (Foreign_error ''EOF'')) ''started''
          [AnyString ''port'', AnyInt 80]]\<rparr>) \<and>
   WithValues [AnyString ''port'', AnyInt 80] init_pkg =
     Some (logr_New (PLogSink
             (NewLogSink [] Stdout 0 JSONEncoder [AnyString ''port'', AnyInt 80])),
           init_pkg) \<and>
   WithName ''db'' init_pkg =
     Some (logr_New (PLogSink (NewLogSink ''db'' Stdout 0 JSONEncoder [])), init_pkg)"
proof -
  have a: "\<not> writer (mtx init_pkg)"
    by (simp add: init_pkg_def)
  have c: "calls init_pkg = []"
    by (simp add: init_pkg_def)
  have wv: "Logger_WithValues (logger init_pkg) [AnyString ''port'', AnyInt 80] =
      logr_New (PLogSink (NewLogSink [] Stdout 0 JSONEncoder [AnyString ''port'', AnyInt 80]))"
    by (simp add: init_pkg_def Logger_WithValues_def logr_New_def NewLogSink_def
        LogSink_WithValues_def)
  have wn: "Logger_WithName (logger init_pkg) ''db'' =
      logr_New (PLogSink (NewLogSink ''db'' Stdout 0 JSONEncoder []))"
    by (simp add: init_pkg_def Logger_WithName_def logr_New_def NewLogSink_def
        LogSink_WithName_def)
  show ?thesis
    using a
      readers_delegate_to_logger [OF a, of "''started''" "[AnyString ''port'', AnyInt 80]"
        "Some (Foreign_error ''EOF'')" "''db''"]
    by (simp add: c wv wn)
qed

text \<open>
  C6. Called while no writer holds the mutex, \<open>V(n)\<close> returns \<open>logger.V(n)\<close> of the
  installed logger, a logger over the same sink whose level is raised by \<open>n\<close> (by 0 for
  a negative \<open>n\<close>), and leaves the package state, the logger variable and its sink with
  it, as it was.
\<close>

theorem V_returns_derived_logger:
  assumes "\<not> writer (mtx s)"
  shows "V n s = Some (Logger_V (logger s) n, s) \<and>
         GetSink (Logger_V (logger s) n) = GetSink (logger s) \<and>
         level (Logger_V (logger s) n) = level (logger s) + (if n <s 0 then 0 else n)"
  using V_returns [OF assms, of n] by (simp add: Logger_V_def GetSink_def)

theorem V_returns_derived_logger_witness:
  "\<not> writer (mtx init_pkg) \<and>
   V 3 init_pkg =
     Some (\<lparr>sink = PLogSink (NewLogSink [] Stdout 0 JSONEncoder []), level = 3\<rparr>, init_pkg)"
proof -
  have a: "\<not> writer (mtx init_pkg)"
    by (simp add: init_pkg_def)
  have l: "Logger_V (logger init_pkg) 3 =
      \<lparr>sink = PLogSink (NewLogSink [] Stdout 0 JSONEncoder []), level = 3\<rparr>"
    by (simp add: init_pkg_def Logger_V_def logr_New_def word_sless_alt)
  show ?thesis
    using a V_returns_derived_logger [OF a, of 3] by (simp add: l)
qed

text \<open>
  C7. For every threshold \<open>T\<close> and level \<open>L\<close>, \<open>Enabled(L)\<close> on a sink with threshold
  \<open>T\<close> is true if and only if \<open>L \<le> T\<close> as integers, whether the threshold was given
  to the constructor or set later. \<open>Enabled\<close> is a function of the sink's value and
  returns the boolean only.
\<close>

theorem Enabled_iff_level_le_threshold:
  "Enabled ls L = (sint L \<le> sint (ls_verbosity ls)) \<and>
   Enabled (NewLogSink c w T e kvs) L = (sint L \<le> sint T) \<and>
   Enabled (SetVerbosity T ls) L = (sint L \<le> sint T)"
  by (simp add: Enabled_def NewLogSink_def SetVerbosity_def word_sle_eq)

text \<open>
  C8. Called with the mutex free, \<open>UseLogger(l)\<close> returns and stores \<open>l\<close>, and
  \<open>GetLogger()\<close> called next returns exactly \<open>l\<close> and leaves the state as it is. After
  \<open>InitWithOptions\<close>, \<open>GetLogger()\<close> returns the logger that call built.
\<close>

theorem GetLogger_after_UseLogger:
  assumes "\<not> writer (mtx s)" and "readers (mtx s) = 0"
  shows "(\<exists>t. UseLogger l s = Some ((), t) \<and> GetLogger t = (l, t)) \<and>
         (\<exists>t. InitWithOptions c opts kvs s = Some ((), t) \<and>
              GetLogger t =
                (logr_New (PLogSink
                   (range_opts opts (NewLogSink c (defaultOutput s) 0 JSONEncoder kvs))), t))"
  using UseLogger_returns [OF assms, of l] InitWithOptions_returns [OF assms, of c opts kvs]
  by (simp add: GetLogger_def)

theorem GetLogger_after_UseLogger_witness:
  "\<not> writer (mtx init_pkg) \<and> readers (mtx init_pkg) = 0 \<and>
   (\<exists>t. UseLogger \<lparr>sink = Other (Foreign 7), level = 2\<rparr> init_pkg = Some ((), t) \<and>
        GetLogger t = (\<lparr>sink = Other (Foreign 7), level = 2\<rparr>, t))"
proof -
  have a: "\<not> writer (mtx init_pkg)" and b: "readers (mtx init_pkg) = 0"
    by (simp_all add: init_pkg_def)
  show ?thesis
    using a b GetLogger_after_UseLogger [OF a b, of "\<lparr>sink = Other (Foreign 7), level = 2\<rparr>"]
    by simp
qed

lemma range_opts_outcome_returning:
  "range_opts_outcome (map returning opts) ls = Some (range_opts opts ls)"
  by (induction opts arbitrary: ls) (simp_all add: returning_def)

lemma InitWithOptions_outcome_eq:
  "InitWithOptions_outcome c opts kvs s =
     (if writer (mtx s) \<or> 0 < readers (mtx s) then Waits
      else case range_opts_outcome opts (NewLogSink c (defaultOutput s) 0 JSONEncoder kvs) of
             None \<Rightarrow> Panics s
           | Some ls \<Rightarrow> Returns ((), s\<lparr>logger := logr_New (PLogSink ls)\<rparr>))"
proof (cases "writer (mtx s) \<or> 0 < readers (mtx s)")
  case True
  then show ?thesis
    by (auto simp add: InitWithOptions_outcome_def with_Lock_outcome_def Lock_def)
next
  case False
  then have a: "\<not> writer (mtx s)" and b: "readers (mtx s) = 0"
    by simp_all
  note lu = Lock_Unlock [OF a b]
  show ?thesis
    using False lu
    by (simp add: InitWithOptions_outcome_def with_Lock_outcome_def useLogger_def
        split: option.split)
qed

text \<open>With options that return, the outcome is the one of \<open>InitWithOptions\<close> above.\<close>

lemma InitWithOptions_outcome_returning:
  "InitWithOptions_outcome c (map returning opts) kvs s =
     outcome_of (InitWithOptions c opts kvs s)"
proof (cases "writer (mtx s) \<or> 0 < readers (mtx s)")
  case True
  then show ?thesis
    by (simp add: InitWithOptions_outcome_eq writers_wait(1) outcome_of_def)
next
  case False
  then have a: "\<not> writer (mtx s)" and b: "readers (mtx s) = 0"
    by simp_all
  show ?thesis
    using False
    by (simp add: InitWithOptions_outcome_eq InitWithOptions_returns [OF a b]
        range_opts_outcome_returning outcome_of_def)
qed

text \<open>
  C9, as stated, fails: \<open>MustInitWithOptions("app", []Option{nil})\<close>, called on the
  initial state with the mutex free, panics at the call \<open>opt(ls)\<close>. The deferred
  \<open>Unlock\<close> has run and the logger variable was not assigned, so the state is the
  initial one.
\<close>

theorem MustInitWithOptions_nil_option_counterexample:
  "MustInitWithOptions_outcome ''app'' [nil_Option] [] init_pkg = Panics init_pkg"
  by (simp add: MustInitWithOptions_outcome_def InitWithOptions_outcome_eq nil_Option_def
      init_pkg_def)

text \<open>
  C9, amended. \<open>MustInit\<close> ends as \<open>Init\<close> does and \<open>MustInitWithOptions\<close> as
  \<open>InitWithOptions\<close> does, on every argument and every state, panics included: the
  Must variants add no panic of their own. \<open>MustInit\<close> never panics: it waits while the
  mutex is held and otherwise returns with the new logger installed.
  \<open>MustInitWithOptions\<close> waits while the mutex is held; otherwise it panics exactly
  when the call of one of its options panics, leaving the state as it was, and else
  returns with the new logger installed. With options that all return it ends as the
  function without panics does.
\<close>

theorem Must_variants_panic_as_the_plain_ones:
  "MustInit_outcome c kvs s = Init_outcome c kvs s \<and>
   MustInitWithOptions_outcome c opts kvs s = InitWithOptions_outcome c opts kvs s \<and>
   MustInit_outcome c kvs s \<noteq> Panics t \<and>
   MustInit_outcome c kvs s =
     (if writer (mtx s) \<or> 0 < readers (mtx s) then Waits
      else Returns ((), s\<lparr>logger := logr_New (PLogSink
             \<lparr>ls_name = c, ls_output = defaultOutput s, ls_verbosity = 0,
              ls_encoder = JSONEncoder, ls_fields = kvs\<rparr>)\<rparr>)) \<and>
   MustInitWithOptions_outcome c opts kvs s =
     (if writer (mtx s) \<or> 0 < readers (mtx s) then Waits
      else case range_opts_outcome opts
                  \<lparr>ls_name = c, ls_output = defaultOutput s, ls_verbosity = 0,
                   ls_encoder = JSONEncoder, ls_fields = kvs\<rparr> of
             None \<Rightarrow> Panics s
           | Some ls \<Rightarrow> Returns ((), s\<lparr>logger := logr_New (PLogSink ls)\<rparr>)) \<and>
   MustInitWithOptions_outcome c (map returning ropts) kvs s =
     outcome_of (MustInitWithOptions c ropts kvs s) \<and>
   MustInit_outcome c kvs s = outcome_of (MustInit c kvs s)"
proof -
  have i: "Init_outcome c kvs s = outcome_of (Init c kvs s)"
    using InitWithOptions_outcome_returning [of c "[]" kvs s]
    by (simp add: Init_outcome_def Init_def)
  have e: "Init_outcome c kvs s =
     (if writer (mtx s) \<or> 0 < readers (mtx s) then Waits
      else Returns ((), s\<lparr>logger := logr_New (PLogSink
             \<lparr>ls_name = c, ls_output = defaultOutput s, ls_verbosity = 0,
              ls_encoder = JSONEncoder, ls_fields = kvs\<rparr>)\<rparr>))"
    by (simp add: Init_outcome_def InitWithOptions_outcome_eq NewLogSink_def)
  have n: "Init_outcome c kvs s \<noteq> Panics t"
    by (simp add: e)
  have m: "MustInit_outcome c kvs s = Init_outcome c kvs s"
    by (simp add: MustInit_outcome_def)
  have w: "MustInitWithOptions_outcome c opts kvs s =
     (if writer (mtx s) \<or> 0 < readers (mtx s) then Waits
      else case range_opts_outcome opts
                  \<lparr>ls_name = c, ls_output = defaultOutput s, ls_verbosity = 0,
                   ls_encoder = JSONEncoder, ls_fields = kvs\<rparr> of
             None \<Rightarrow> Panics s
           | Some ls \<Rightarrow> Returns ((), s\<lparr>logger := logr_New (PLogSink ls)\<rparr>))"
    by (simp add: MustInitWithOptions_outcome_def InitWithOptions_outcome_eq NewLogSink_def)
  have r: "MustInitWithOptions_outcome c (map returning ropts) kvs s =
     outcome_of (MustInitWithOptions c ropts kvs s)"
    by (simp add: MustInitWithOptions_outcome_def MustInitWithOptions_def
        InitWithOptions_outcome_returning)
  have q: "MustInit_outcome c kvs s = outcome_of (MustInit c kvs s)"
    by (simp add: m i MustInit_def)
  have o: "MustInitWithOptions_outcome c opts kvs s = InitWithOptions_outcome c opts kvs s"
    by (simp add: MustInitWithOptions_outcome_def)
  show ?thesis
    using m o n e w r q by (simp only: simp_thms)
qed










end
